theory Spec2Isabelle
  imports Main "HOL-Library.Multiset"
begin

section \<open>AIFileSorter: a shallow embedding of \<open>src/main.py\<close>\<close>

text \<open>
  The program scans a staging folder, extracts text from each file, asks a zero-shot
  classifier for a category (content first, then the file's stem, then the fixed label
  \<open>Other\<close>), moves the file into a folder named after the category and appends a row
  to an audit log.

  Conventions of the embedding:
  \<^item> a Python \<open>str\<close> is a \<open>string\<close>; one \<open>char\<close> stands for one character of the
    \<open>str\<close> (the code points below 256), so \<open>text[:1000]\<close> is \<open>take 1000 text\<close>;
  \<^item> an exception (any subclass of \<open>Exception\<close>, which is what the handlers of the
    source catch) is a value of type \<open>exn\<close>; a function of the source that reads or
    changes the outside world takes the world and returns the outcome and the new world,
    \<open>(exn + 'a) \<times> world\<close>, with \<open>Inl\<close> for a raised exception;
  \<^item> the libraries the program calls (the classifier, the OCR reader, the PDF and DOCX
    readers, the operating system) are fields of a record \<open>env\<close>: what they answer is a
    parameter of every theorem;
  \<^item> every \<open>print\<close> of the source is an event of the world's trace, in the order
    printed; a call of the classifier is an event too, with the text it received;
  \<^item> a path is the string \<open>str\<close> gives for it; \<open>a / b\<close> of pathlib is \<open>a @ sep @ b\<close>,
    which is what it is for the relative, non-empty labels and file names joined here.
\<close>

subsection \<open>Exceptions, events, paths\<close>

datatype exn =
    IndexError
  | TypeError
  | FileExistsError
  | FileNotFoundError
  | ShutilError
  | OtherError string

datatype event =
    LoadingModel
  | ModelsReady
  | OcrFailed string exn
  | NoTextInPdf
  | RunningOcrOnImage string
  | ImageEmptyOrMissing string
  | Unsupported string
  | ErrorReading string exn
  | ClassifierCall string
  | MovedTo string string
  | ErrorMoving string exn
  | Scanning string
  | Processing string
  | ClassifiedFromContent string
  | TextClassificationFailed exn
  | NoReadableText
  | FallingBack
  | ClassifiedFromFilename string
  | FilenameClassificationFailed exn
  | Done string

text \<open>
  A \<open>pathlib.Path\<close> of the staging folder, as the attributes the program reads:
  \<open>name\<close> (the last component), \<open>stem\<close> (the name without its last suffix) and
  \<open>suffix\<close>. pathlib derives the last two from the name; here they are given.
\<close>

record path =
  name :: string
  stem :: string
  suffix :: string

datatype node = RegularFile | Directory

record world =
  fs :: "string \<Rightarrow> node option"
  log :: "string list list option"
  trace :: "event list"

text \<open>
  \<open>fs\<close> says what is at a path (nothing, a regular file or a directory); \<open>log\<close> is the
  audit log file, \<open>None\<close> while it does not exist, else its rows in order (one CSV
  row is the list of its fields). The log file sits directly under the documents folder,
  whereas files are moved two levels below it, so it is kept apart from \<open>fs\<close>.
\<close>

record env =
  home :: string
  load_error :: "exn option"
  classifier :: "string \<Rightarrow> string list \<Rightarrow> exn + string list"
  read_text :: "string \<Rightarrow> exn + string"
  pdf_page_texts :: "string \<Rightarrow> exn + string list"
  pdf_page_ocr :: "string \<Rightarrow> exn + (exn + string list) list"
  docx_paragraphs :: "string \<Rightarrow> exn + string list"
  st_size :: "string \<Rightarrow> exn + nat"
  readtext :: "string \<Rightarrow> exn + string list"
  iterdir :: "exn + path list"
  mkdir_error :: "string \<Rightarrow> exn option"
  os_move_error :: "string \<Rightarrow> string \<Rightarrow> exn option"
  log_create_error :: "exn option"
  log_append_error :: "string list \<Rightarrow> exn option"
  now :: "string \<Rightarrow> string"

text \<open>
  The fields of \<open>env\<close>, by the call of the source they answer:
  \<^item> \<open>home\<close>: \<open>Path.home()\<close>;
  \<^item> \<open>load_error\<close>: whether loading the two models at import raises;
  \<^item> \<open>classifier t ls\<close>: \<open>classifier(t, ls)['labels']\<close>, the labels ranked by score,
    or the exception raised;
  \<^item> \<open>read_text p\<close>: \<open>p.read_text(errors='ignore')\<close>;
  \<^item> \<open>pdf_page_texts p\<close>: \<open>fitz.open(p)\<close> and \<open>page.get_text()\<close> of every page in order;
  \<^item> \<open>pdf_page_ocr p\<close>: \<open>fitz.open(p)\<close>, then for every page in order the outcome of
    rendering it and \<open>reader.readtext(img_np, detail=0)\<close>: the recognised fragments,
    or the exception raised on that page;
  \<^item> \<open>docx_paragraphs p\<close>: the texts of \<open>Document(p).paragraphs\<close>;
  \<^item> \<open>st_size p\<close>: \<open>p.stat().st_size\<close>;
  \<^item> \<open>readtext p\<close>: \<open>reader.readtext(str(p), detail=0)\<close>;
  \<^item> \<open>iterdir\<close>: the entries of \<open>DOWNLOADS.iterdir()\<close>;
  \<^item> \<open>mkdir_error\<close>, \<open>os_move_error\<close>, \<open>log_create_error\<close>, \<open>log_append_error\<close>: whether
    the operating system refuses to create a folder, to move a file, to create the log or
    to append a row to it;
  \<^item> \<open>now n\<close>: \<open>datetime.now().isoformat()\<close> at the moment the row of file \<open>n\<close> is written.
\<close>

definition emit :: "world \<Rightarrow> event \<Rightarrow> world" where
  "emit w e = w\<lparr>trace := trace w @ [e]\<rparr>"

definition sep :: string where
  "sep = ''/''"

definition DOWNLOADS :: "env \<Rightarrow> string" where
  "DOWNLOADS env = home env @ sep @ ''Downloads''"

definition DOCUMENTS :: "env \<Rightarrow> string" where
  "DOCUMENTS env = home env @ sep @ ''Documents''"

definition LOG_FILE :: "env \<Rightarrow> string" where
  "LOG_FILE env = DOCUMENTS env @ sep @ ''ai_file_sort_log.csv''"

definition CATEGORIES :: "string list" where
  "CATEGORIES = [''IT'' @ ''IT/Jens'', ''Math'', ''History'', ''Coding'', ''Finacial Literacy'',
     ''College Prep'', ''English'', ''Other'']"

text \<open>\<open>str(file_path)\<close> of an entry of the staging folder.\<close>

definition str_path :: "env \<Rightarrow> path \<Rightarrow> string" where
  "str_path env f = DOWNLOADS env @ sep @ name f"

subsection \<open>String helpers of Python\<close>

definition nl :: string where
  "nl = [CHR 0x0A]"

text \<open>\<open>s.join(xs)\<close>\<close>

fun join :: "string \<Rightarrow> string list \<Rightarrow> string" where
  "join s [] = []"
| "join s [x] = x"
| "join s (x # y # ys) = x @ s @ join s (y # ys)"

text \<open>
  \<open>str.isspace\<close> of one character, for the code points below 256: tab to carriage
  return, the four separators 28 to 31, the space, NEL and the no-break space.
\<close>

definition isspace :: "char \<Rightarrow> bool" where
  "isspace c = ((of_char c :: nat) \<in> {9, 10, 11, 12, 13, 28, 29, 30, 31, 32, 133, 160})"

definition strip :: "string \<Rightarrow> string" where
  "strip s = rev (dropWhile isspace (rev (dropWhile isspace s)))"

text \<open>\<open>str.lower\<close>, for the code points below 256.\<close>

definition lower_char :: "char \<Rightarrow> char" where
  "lower_char c =
     (let n = (of_char c :: nat)
      in if (65 \<le> n \<and> n \<le> 90) \<or> (192 \<le> n \<and> n \<le> 222 \<and> n \<noteq> 215) then char_of (n + 32) else c)"

definition lower :: "string \<Rightarrow> string" where
  "lower s = map lower_char s"

text \<open>\<open>os.path.basename\<close>: what follows the last separator.\<close>

definition basename :: "string \<Rightarrow> string" where
  "basename s = rev (takeWhile (\<lambda>c. c \<noteq> CHR ''/'') (rev s))"

subsection \<open>OCR of a scanned PDF (\<open>ocr_pdf\<close>)\<close>

text \<open>The loop over the pages: the first page that raises ends it.\<close>

fun ocr_pages :: "(exn + string list) list \<Rightarrow> string list \<Rightarrow> exn + string list" where
  "ocr_pages [] text_output = Inr text_output"
| "ocr_pages (p # ps) text_output =
     (case p of
        Inl e \<Rightarrow> Inl e
      | Inr result \<Rightarrow> ocr_pages ps (text_output @ [join nl result]))"

definition ocr_pdf_body :: "env \<Rightarrow> path \<Rightarrow> exn + string" where
  "ocr_pdf_body env file_path =
     (case pdf_page_ocr env (str_path env file_path) of
        Inl e \<Rightarrow> Inl e
      | Inr pages \<Rightarrow>
          (case ocr_pages pages [] of
             Inl e \<Rightarrow> Inl e
           | Inr text_output \<Rightarrow> Inr (join (nl @ nl) text_output)))"

definition ocr_pdf :: "env \<Rightarrow> world \<Rightarrow> path \<Rightarrow> (exn + string) \<times> world" where
  "ocr_pdf env w file_path =
     (case ocr_pdf_body env file_path of
        Inr text \<Rightarrow> (Inr text, w)
      | Inl e \<Rightarrow> (Inr [], emit w (OcrFailed (name file_path) e)))"

subsection \<open>Text extraction (\<open>extract_text_from_file\<close>)\<close>

definition image_exts :: "string list" where
  "image_exts = [''.png'', ''.jpg'', ''.jpeg'', ''.gif'', ''.bmp'']"

definition supported_exts :: "string list" where
  "supported_exts = [''.txt'', ''.pdf'', ''.docx''] @ image_exts"

text \<open>The body of the \<open>try\<close>.\<close>

definition extract_body :: "env \<Rightarrow> world \<Rightarrow> path \<Rightarrow> (exn + string) \<times> world" where
  "extract_body env w file_path =
     (let ext = lower (suffix file_path); p = str_path env file_path in
      if ext = ''.txt'' then (read_text env p, w)
      else if ext = ''.pdf'' then
        (case pdf_page_texts env p of
           Inl e \<Rightarrow> (Inl e, w)
         | Inr texts \<Rightarrow>
             (let text = join nl texts in
              if strip text \<noteq> [] then (Inr text, w)
              else ocr_pdf env (emit w NoTextInPdf) file_path))
      else if ext = ''.docx'' then
        (case docx_paragraphs env p of
           Inl e \<Rightarrow> (Inl e, w)
         | Inr ps \<Rightarrow> (Inr (join nl ps), w))
      else if ext \<in> set image_exts then
        (let w1 = emit w (RunningOcrOnImage (name file_path)) in
         if fs w1 p = None then (Inr [], emit w1 (ImageEmptyOrMissing p))
         else
           (case st_size env p of
              Inl e \<Rightarrow> (Inl e, w1)
            | Inr n \<Rightarrow>
                if n = 0 then (Inr [], emit w1 (ImageEmptyOrMissing p))
                else
                  (case readtext env p of
                     Inl e \<Rightarrow> (Inl e, w1)
                   | Inr result \<Rightarrow> (Inr (join nl result), w1))))
      else (Inr [], emit w (Unsupported (name file_path))))"

definition extract_text_from_file :: "env \<Rightarrow> world \<Rightarrow> path \<Rightarrow> (exn + string) \<times> world" where
  "extract_text_from_file env w file_path =
     (case extract_body env w file_path of
        (Inr text, w1) \<Rightarrow> (Inr text, w1)
      | (Inl e, w1) \<Rightarrow> (Inr [], emit w1 (ErrorReading (name file_path) e)))"

subsection \<open>Classification (\<open>classify_text\<close>)\<close>

text \<open>
  \<open>result['labels'][0]\<close> raises \<open>IndexError\<close> on an empty ranking. A classification
  failure is not caught here.
\<close>

definition classify_text :: "env \<Rightarrow> world \<Rightarrow> string \<Rightarrow> (exn + string) \<times> world" where
  "classify_text env w text =
     (let arg = take 1000 text; w1 = emit w (ClassifierCall arg) in
      case classifier env arg CATEGORIES of
        Inl e \<Rightarrow> (Inl e, w1)
      | Inr labels \<Rightarrow>
          (case labels of
             [] \<Rightarrow> (Inl IndexError, w1)
           | l # _ \<Rightarrow> (Inr l, w1)))"

text \<open>
  What the zero-shot pipeline promises about its answer: the ranking is the candidate
  labels, reordered by score.
\<close>

definition ranks_candidates :: "env \<Rightarrow> bool" where
  "ranks_candidates env = (\<forall>t ls r. classifier env t ls = Inr r \<longrightarrow> mset r = mset ls)"

subsection \<open>The fallback controller (lines 116 to 135 of \<open>process_downloads\<close>)\<close>

text \<open>
  The variable \<open>category\<close> starts as \<open>None\<close>. \<open>not category\<close> holds for \<open>None\<close> and for the
  empty string.
\<close>

definition falsy :: "string option \<Rightarrow> bool" where
  "falsy category = (case category of None \<Rightarrow> True | Some c \<Rightarrow> c = [])"

definition content_tier :: "env \<Rightarrow> world \<Rightarrow> string \<Rightarrow> string option \<times> world" where
  "content_tier env w text =
     (if strip text \<noteq> [] then
        (case classify_text env w text of
           (Inr c, w1) \<Rightarrow> (Some c, emit w1 (ClassifiedFromContent c))
         | (Inl e, w1) \<Rightarrow> (None, emit w1 (TextClassificationFailed e)))
      else (None, emit w NoReadableText))"

definition filename_tier ::
  "env \<Rightarrow> world \<Rightarrow> path \<Rightarrow> string option \<Rightarrow> (exn + string option) \<times> world" where
  "filename_tier env w file_path category =
     (if falsy category then
        (case classify_text env (emit w FallingBack) (stem file_path) of
           (Inr c, w1) \<Rightarrow> (Inr (Some c), emit w1 (ClassifiedFromFilename c))
         | (Inl e, w1) \<Rightarrow> (Inr (Some ''Other''), emit w1 (FilenameClassificationFailed e)))
      else (Inr category, w))"

definition choose_category ::
  "env \<Rightarrow> world \<Rightarrow> path \<Rightarrow> string \<Rightarrow> (exn + string option) \<times> world" where
  "choose_category env w file_path text =
     (case content_tier env w text of
        (category, w1) \<Rightarrow> filename_tier env w1 file_path category)"

text \<open>The events a step added to the trace.\<close>

definition new_events :: "world \<Rightarrow> world \<Rightarrow> event list" where
  "new_events w w' = drop (length (trace w)) (trace w')"

subsection \<open>The file system calls of the relocator\<close>

text \<open>
  \<open>destination.mkdir(parents=True, exist_ok=True)\<close>: nothing happens when the folder
  exists, \<open>FileExistsError\<close> when the path is a regular file, else the folder is created
  unless the operating system refuses. Only the folder itself is recorded, not the
  parents created on the way.
\<close>

definition mkdir :: "env \<Rightarrow> world \<Rightarrow> string \<Rightarrow> (exn + unit) \<times> world" where
  "mkdir env w p =
     (case fs w p of
        Some Directory \<Rightarrow> (Inr (), w)
      | Some RegularFile \<Rightarrow> (Inl FileExistsError, w)
      | None \<Rightarrow>
          (case mkdir_error env p of
             Some e \<Rightarrow> (Inl e, w)
           | None \<Rightarrow> (Inr (), w\<lparr>fs := (fs w)(p \<mapsto> Directory)\<rparr>)))"

text \<open>
  \<open>shutil.move(src, dst)\<close> of the standard library: when \<open>dst\<close> is an existing
  directory the source is moved inside it, under its own base name, and that path must
  be free; otherwise the source is moved to \<open>dst\<close> itself. The call returns the path
  the file now has.
\<close>

definition shutil_move :: "env \<Rightarrow> world \<Rightarrow> string \<Rightarrow> string \<Rightarrow> (exn + string) \<times> world" where
  "shutil_move env w src dst =
     (let real_dst = (if fs w dst = Some Directory then dst @ sep @ basename src else dst) in
      if fs w dst = Some Directory \<and> fs w real_dst \<noteq> None then (Inl ShutilError, w)
      else if fs w src = None then (Inl FileNotFoundError, w)
      else
        (case os_move_error env src real_dst of
           Some e \<Rightarrow> (Inl e, w)
         | None \<Rightarrow> (Inr real_dst, w\<lparr>fs := (fs w)(src := None, real_dst := fs w src)\<rparr>)))"

subsection \<open>Relocation and logging (\<open>move_file\<close>, \<open>log_action\<close>)\<close>

text \<open>
  \<open>mkdir\<close> is called outside the \<open>try\<close>: its exception leaves \<open>move_file\<close>. A failure
  of the move itself is caught and \<open>None\<close> is returned. On success the function returns
  \<open>str(target)\<close>; what \<open>shutil.move\<close> returned is not used.
\<close>

definition move_file ::
  "env \<Rightarrow> world \<Rightarrow> path \<Rightarrow> string \<Rightarrow> (exn + string option) \<times> world" where
  "move_file env w file_path category =
     (let destination = DOCUMENTS env @ sep @ category in
      case mkdir env w destination of
        (Inl e, w1) \<Rightarrow> (Inl e, w1)
      | (Inr _, w1) \<Rightarrow>
          (let target = destination @ sep @ name file_path in
           case shutil_move env w1 (str_path env file_path) target of
             (Inr _, w2) \<Rightarrow> (Inr (Some target), emit w2 (MovedTo (name file_path) category))
           | (Inl e, w2) \<Rightarrow> (Inr None, emit w2 (ErrorMoving (name file_path) e))))"

definition header :: "string list" where
  "header = [''timestamp'', ''file_name'', ''category'', ''new_path'']"

text \<open>Mode \<open>'a'\<close> creates the file when it is missing. Nothing here is caught.\<close>

definition log_action ::
  "env \<Rightarrow> world \<Rightarrow> string \<Rightarrow> string \<Rightarrow> string \<Rightarrow> (exn + unit) \<times> world" where
  "log_action env w file_name category new_path =
     (let row = [now env file_name, file_name, category, new_path] in
      case log_append_error env row of
        Some e \<Rightarrow> (Inl e, w)
      | None \<Rightarrow>
          (Inr (), w\<lparr>log := Some ((case log w of None \<Rightarrow> [] | Some rows \<Rightarrow> rows) @ [row])\<rparr>))"

subsection \<open>The main loop (\<open>process_downloads\<close>)\<close>

text \<open>One pass of the loop body, for one entry of the staging folder.\<close>

definition process_entry :: "env \<Rightarrow> world \<Rightarrow> path \<Rightarrow> (exn + unit) \<times> world" where
  "process_entry env w file_path =
     (if fs w (str_path env file_path) \<noteq> Some RegularFile then (Inr (), w)
      else
        (case extract_text_from_file env (emit w (Processing (name file_path))) file_path of
           (Inl e, w1) \<Rightarrow> (Inl e, w1)
         | (Inr text, w1) \<Rightarrow>
             (case choose_category env w1 file_path text of
                (Inl e, w2) \<Rightarrow> (Inl e, w2)
              | (Inr None, w2) \<Rightarrow> (Inl TypeError, w2)
              | (Inr (Some category), w2) \<Rightarrow>
                  (case move_file env w2 file_path category of
                     (Inl e, w3) \<Rightarrow> (Inl e, w3)
                   | (Inr None, w3) \<Rightarrow> (Inr (), w3)
                   | (Inr (Some new_path), w3) \<Rightarrow>
                       (if new_path = [] then (Inr (), w3)
                        else log_action env w3 (name file_path) category new_path)))))"

fun process_loop :: "env \<Rightarrow> world \<Rightarrow> path list \<Rightarrow> (exn + unit) \<times> world" where
  "process_loop env w [] = (Inr (), w)"
| "process_loop env w (file_path # rest) =
     (case process_entry env w file_path of
        (Inl e, w1) \<Rightarrow> (Inl e, w1)
      | (Inr _, w1) \<Rightarrow> process_loop env w1 rest)"

definition process_downloads :: "env \<Rightarrow> world \<Rightarrow> (exn + unit) \<times> world" where
  "process_downloads env w =
     (let w0 = emit w (Scanning (DOWNLOADS env)) in
      case iterdir env of
        Inl e \<Rightarrow> (Inl e, w0)
      | Inr entries \<Rightarrow>
          (case process_loop env w0 entries of
             (Inl e, w1) \<Rightarrow> (Inl e, w1)
           | (Inr _, w1) \<Rightarrow> (Inr (), emit w1 (Done (LOG_FILE env)))))"

subsection \<open>Start of the process (module level)\<close>

text \<open>Lines 22 to 28: the two models are loaded.\<close>

definition load_models :: "env \<Rightarrow> world \<Rightarrow> (exn + unit) \<times> world" where
  "load_models env w =
     (case load_error env of
        Some e \<Rightarrow> (Inl e, emit w LoadingModel)
      | None \<Rightarrow> (Inr (), emit (emit w LoadingModel) ModelsReady))"

text \<open>
  Lines 145 to 148: the log is created, with the header row, when it does not exist.
  Creating the file and writing the row are one step here: it happens or it raises.
\<close>

definition init_log :: "env \<Rightarrow> world \<Rightarrow> (exn + unit) \<times> world" where
  "init_log env w =
     (if log w \<noteq> None then (Inr (), w)
      else
        (case log_create_error env of
           Some e \<Rightarrow> (Inl e, w)
         | None \<Rightarrow> (Inr (), w\<lparr>log := Some [header]\<rparr>)))"

text \<open>Running the script: models, log, then the loop.\<close>

definition main :: "env \<Rightarrow> world \<Rightarrow> (exn + unit) \<times> world" where
  "main env w =
     (case load_models env w of
        (Inl e, w1) \<Rightarrow> (Inl e, w1)
      | (Inr _, w1) \<Rightarrow>
          (case init_log env w1 of
             (Inl e, w2) \<Rightarrow> (Inl e, w2)
           | (Inr _, w2) \<Rightarrow> process_downloads env w2))"

subsection \<open>The specification's wording of the OCR output, and the shape of a sound log\<close>

text \<open>
  The specification's words for the PDF path: the fragments of a page are joined with
  blank lines, and so are the pages.
\<close>

definition spec_ocr_text :: "string list list \<Rightarrow> string" where
  "spec_ocr_text pages = join (nl @ nl) (map (join (nl @ nl)) pages)"

text \<open>The log exists, its first row is the header, and no later row is a header.\<close>

definition one_header_first :: "string list list option \<Rightarrow> bool" where
  "one_header_first l =
     (case l of
        Some (h # rows) \<Rightarrow> h = header \<and> header \<notin> set rows
      | _ \<Rightarrow> False)"

subsection \<open>Concrete inputs\<close>

text \<open>
  A classifier that ranks \<open>Math\<close> first whenever it is a candidate, libraries that
  answer, and an operating system that refuses nothing.
\<close>

definition ex_taxes :: path where
  "ex_taxes = \<lparr>name = ''Taxes'', stem = ''Taxes'', suffix = ''''\<rparr>"

definition ex_notes :: path where
  "ex_notes = \<lparr>name = ''algebra_notes.txt'', stem = ''algebra_notes'', suffix = ''.txt''\<rparr>"

definition ex_classifier :: "string \<Rightarrow> string list \<Rightarrow> exn + string list" where
  "ex_classifier t ls = (if ''Math'' \<in> set ls then Inr (''Math'' # remove1 ''Math'' ls) else Inr ls)"

definition ex_env :: env where
  "ex_env = \<lparr>home = ''/home/u'', load_error = None,
     classifier = ex_classifier,
     read_text = (\<lambda>p. Inr ''Solving quadratic equations''),
     pdf_page_texts = (\<lambda>p. Inr []),
     pdf_page_ocr = (\<lambda>p. Inr [Inr [''a'', ''b''], Inr [''c'']]),
     docx_paragraphs = (\<lambda>p. Inr []),
     st_size = (\<lambda>p. Inr 1),
     readtext = (\<lambda>p. Inr []),
     iterdir = Inr [ex_taxes],
     mkdir_error = (\<lambda>p. None),
     os_move_error = (\<lambda>s d. None),
     log_create_error = None,
     log_append_error = (\<lambda>r. None),
     now = (\<lambda>n. ''2024-05-01T10:00:00'')\<rparr>"

text \<open>
  A world where the folder \<open>Math\<close> of the documents already holds a folder named
  \<open>Taxes\<close>, and the staging folder holds a file of that name.
\<close>

definition dir_world :: world where
  "dir_world = \<lparr>fs = [''/home/u/Downloads/Taxes'' \<mapsto> RegularFile,
                        ''/home/u/Documents/Math'' \<mapsto> Directory,
                        ''/home/u/Documents/Math/Taxes'' \<mapsto> Directory],
                 log = None, trace = []\<rparr>"

definition ex_world :: world where
  "ex_world = \<lparr>fs = [''/home/u/Downloads/algebra_notes.txt'' \<mapsto> RegularFile,
                        ''/home/u/Downloads/Taxes'' \<mapsto> RegularFile],
                 log = None, trace = []\<rparr>"

definition ex_zip :: path where
  "ex_zip = \<lparr>name = ''archive.zip'', stem = ''archive'', suffix = ''.zip''\<rparr>"

text \<open>The same libraries, with a log that cannot be appended to.\<close>

definition full_disk_env :: env where
  "full_disk_env = ex_env\<lparr>iterdir := Inr [ex_notes, ex_taxes],
     log_append_error := (\<lambda>r. Some (OtherError ''disk full''))\<rparr>"

text \<open>\<open>ex_world\<close> after the scan has started and \<open>algebra_notes.txt\<close> has been moved.\<close>

definition moved_world :: world where
  "moved_world =
     \<lparr>fs = [''/home/u/Downloads/Taxes'' \<mapsto> RegularFile,
            ''/home/u/Documents/Math'' \<mapsto> Directory,
            ''/home/u/Documents/Math/algebra_notes.txt'' \<mapsto> RegularFile],
      log = None,
      trace = [Scanning ''/home/u/Downloads'', Processing ''algebra_notes.txt'',
               ClassifierCall ''Solving quadratic equations'',
               ClassifiedFromContent ''Math'', MovedTo ''algebra_notes.txt'' ''Math'']\<rparr>"

text \<open>\<open>ex_world\<close> with a log left by an earlier run: the header and one data row.\<close>

definition logged_world :: world where
  "logged_world = ex_world\<lparr>log := Some [header,
     [''2024-04-30T09:00:00'', ''old.txt'', ''Math'', ''/home/u/Documents/Math/old.txt'']]\<rparr>"

section \<open>Properties\<close>

subsection \<open>Helper lemmas\<close>

lemma top_label_nonempty:
  assumes "ranks_candidates env" "classifier env t CATEGORIES = Inr (c # rest)"
  shows "c \<noteq> []"
proof -
  from assms have "mset (c # rest) = mset CATEGORIES"
    unfolding ranks_candidates_def by blast
  then have "set (c # rest) = set CATEGORIES"
    by (rule mset_eq_setD)
  then have "c \<in> set CATEGORIES" by auto
  then show ?thesis by (auto simp: CATEGORIES_def)
qed

lemma ranking_nonempty:
  assumes "ranks_candidates env" "classifier env t CATEGORIES = Inr r"
  shows "r \<noteq> []"
proof
  assume "r = []"
  with assms have "mset [] = mset CATEGORIES"
    unfolding ranks_candidates_def by blast
  then show False by (simp add: CATEGORIES_def)
qed

lemma ocr_pages_all_ok:
  "ocr_pages (map Inr pages) acc = Inr (acc @ map (join nl) pages)"
  by (induction pages arbitrary: acc) auto

lemma ocr_pages_failure:
  "Inl e \<in> set pages \<Longrightarrow> \<exists>e'. ocr_pages pages acc = Inl e'"
  by (induction pages arbitrary: acc) (auto split: sum.splits)

lemma log_emit [simp]: "log (emit w e) = log w"
  by (simp add: emit_def)

lemma fs_emit [simp]: "fs (emit w e) = fs w"
  by (simp add: emit_def)

lemma log_ocr_pdf: "log (snd (ocr_pdf env w f)) = log w"
  by (simp add: ocr_pdf_def split: sum.splits)

lemma log_extract_body: "log (snd (extract_body env w f)) = log w"
  by (simp add: extract_body_def Let_def log_ocr_pdf split: sum.splits)

lemma log_extract: "log (snd (extract_text_from_file env w f)) = log w"
proof (cases "extract_body env w f")
  case (Pair r w1)
  with log_extract_body [of env w f] show ?thesis
    by (simp add: extract_text_from_file_def split: sum.splits)
qed

lemma log_classify_text: "log (snd (classify_text env w t)) = log w"
  by (simp add: classify_text_def Let_def split: sum.splits list.splits)

lemma log_choose_category: "log (snd (choose_category env w f t)) = log w"
proof -
  have a: "log (snd (content_tier env w t)) = log w"
    using log_classify_text [of env w t]
    by (cases "classify_text env w t") (simp add: content_tier_def split: sum.splits)
  have b: "log (snd (filename_tier env w' f c)) = log w'" for w' c
    using log_classify_text [of env "emit w' FallingBack" "stem f"]
    by (cases "classify_text env (emit w' FallingBack) (stem f)")
       (simp add: filename_tier_def split: sum.splits)
  show ?thesis
    using a b by (cases "content_tier env w t") (simp add: choose_category_def)
qed

lemma log_mkdir: "log (snd (mkdir env w p)) = log w"
  by (simp add: mkdir_def split: option.splits node.splits)

lemma log_shutil_move: "log (snd (shutil_move env w s d)) = log w"
  by (simp add: shutil_move_def Let_def split: option.splits)

lemma log_move_file: "log (snd (move_file env w f c)) = log w"
proof (cases "mkdir env w (DOCUMENTS env @ sep @ c)")
  case (Pair r w1)
  then have w1: "log w1 = log w" using log_mkdir [of env w "DOCUMENTS env @ sep @ c"] by simp
  show ?thesis
  proof (cases r)
    case (Inl e)
    with Pair w1 show ?thesis by (simp add: move_file_def)
  next
    case (Inr u)
    obtain r2 w2 where m: "shutil_move env w1 (str_path env f) (DOCUMENTS env @ sep @ c @ sep @ name f) = (r2, w2)"
      by (cases "shutil_move env w1 (str_path env f) (DOCUMENTS env @ sep @ c @ sep @ name f)")
    then have "log w2 = log w1"
      using log_shutil_move [of env w1 "str_path env f" "DOCUMENTS env @ sep @ c @ sep @ name f"] by simp
    with Pair Inr w1 m show ?thesis by (simp add: move_file_def split: sum.splits)
  qed
qed

lemma move_file_target:
  "move_file env w f c = (Inr (Some p), w') \<Longrightarrow> p = DOCUMENTS env @ sep @ c @ sep @ name f"
  by (auto simp: move_file_def Let_def split: prod.splits sum.splits)

lemma row_not_header: "[ts, n, c, d @ sep @ x] \<noteq> header"
proof
  assume "[ts, n, c, d @ sep @ x] = header"
  then have "d @ sep @ x = ''new_path''" by (simp add: header_def)
  then have "CHR ''/'' \<in> set ''new_path''"
    by (metis in_set_conv_decomp sep_def append_Cons append_Nil)
  then show False by simp
qed

lemma header_log_action:
  assumes "one_header_first (log w)"
  shows "one_header_first (log (snd (log_action env w n c (d @ sep @ x))))"
proof -
  from assms obtain rows where l: "log w = Some (header # rows)" "header \<notin> set rows"
    by (auto simp: one_header_first_def split: option.splits list.splits)
  then show ?thesis
    using row_not_header [of "now env n" n c d x]
    by (auto simp: log_action_def Let_def one_header_first_def split: option.splits)
qed

lemma header_process_entry:
  assumes "one_header_first (log w)"
  shows "one_header_first (log (snd (process_entry env w f)))"
proof (cases "fs w (str_path env f) \<noteq> Some RegularFile")
  case True
  with assms show ?thesis by (simp add: process_entry_def)
next
  case False
  obtain r1 w1 where x: "extract_text_from_file env (emit w (Processing (name f))) f = (r1, w1)"
    by (cases "extract_text_from_file env (emit w (Processing (name f))) f")
  then have l1: "log w1 = log w"
    using log_extract [of env "emit w (Processing (name f))" f] by simp
  show ?thesis
  proof (cases r1)
    case (Inl e)
    with False x l1 assms show ?thesis by (simp add: process_entry_def)
  next
    case (Inr t)
    obtain r2 w2 where c: "choose_category env w1 f t = (r2, w2)"
      by (cases "choose_category env w1 f t")
    then have l2: "log w2 = log w" using log_choose_category [of env w1 f t] l1 by simp
    show ?thesis
    proof (cases r2)
      case (Inl e)
      with False x Inr c l2 assms show ?thesis by (simp add: process_entry_def)
    next
      case r2: (Inr oc)
      show ?thesis
      proof (cases oc)
        case None
        with False x Inr c r2 l2 assms show ?thesis by (simp add: process_entry_def)
      next
        case (Some category)
        obtain r3 w3 where m: "move_file env w2 f category = (r3, w3)"
          by (cases "move_file env w2 f category")
        then have l3: "log w3 = log w" using log_move_file [of env w2 f category] l2 by simp
        show ?thesis
        proof (cases r3)
          case (Inl e)
          with False x Inr c r2 Some m l3 assms show ?thesis by (simp add: process_entry_def)
        next
          case r3: (Inr np)
          show ?thesis
          proof (cases np)
            case None
            with False x Inr c r2 Some m r3 l3 assms show ?thesis by (simp add: process_entry_def)
          next
            case np: (Some p)
            with m r3 have p: "p = (DOCUMENTS env @ sep @ category) @ sep @ name f"
              by (auto dest: move_file_target)
            have "one_header_first (log w3)" using l3 assms by simp
            then have "one_header_first (log (snd (log_action env w3 (name f) category p)))"
              unfolding p by (rule header_log_action)
            with False x Inr c r2 Some m r3 np l3 assms show ?thesis
              by (simp add: process_entry_def)
          qed
        qed
      qed
    qed
  qed
qed

lemma header_process_loop:
  "one_header_first (log w) \<Longrightarrow> one_header_first (log (snd (process_loop env w entries)))"
proof (induction entries arbitrary: w)
  case Nil
  then show ?case by simp
next
  case (Cons f entries)
  obtain r w1 where p: "process_entry env w f = (r, w1)" by (cases "process_entry env w f")
  with Cons.prems have h: "one_header_first (log w1)"
    using header_process_entry [of w env f] by simp
  show ?case
  proof (cases r)
    case (Inl e)
    with p h show ?thesis by simp
  next
    case (Inr u)
    with p Cons.IH [OF h] show ?thesis by simp
  qed
qed

lemma header_process_downloads:
  assumes "one_header_first (log w)"
  shows "one_header_first (log (snd (process_downloads env w)))"
proof (cases "iterdir env")
  case (Inl e)
  with assms show ?thesis by (simp add: process_downloads_def)
next
  case (Inr entries)
  have "one_header_first (log (emit w (Scanning (DOWNLOADS env))))" using assms by simp
  then have "one_header_first (log (snd (process_loop env (emit w (Scanning (DOWNLOADS env))) entries)))"
    by (rule header_process_loop)
  with Inr show ?thesis
    by (cases "process_loop env (emit w (Scanning (DOWNLOADS env))) entries")
       (simp add: process_downloads_def split: sum.splits)
qed

lemma header_main:
  assumes "one_header_first (log w)"
  shows "one_header_first (log (snd (main env w)))"
proof (cases "load_error env")
  case (Some e)
  with assms show ?thesis by (simp add: main_def load_models_def)
next
  case None
  let ?w1 = "emit (emit w LoadingModel) ModelsReady"
  have i: "init_log env ?w1 = (Inr (), ?w1)"
    using assms by (auto simp: init_log_def one_header_first_def split: option.splits)
  have "one_header_first (log ?w1)" using assms by simp
  then have "one_header_first (log (snd (process_downloads env ?w1)))"
    by (rule header_process_downloads)
  with None i show ?thesis by (simp add: main_def load_models_def)
qed

lemma header_first_start:
  assumes "log w = None" "load_error env = None" "log_create_error env = None"
  shows "one_header_first (log (snd (main env w)))"
proof -
  let ?w1 = "emit (emit w LoadingModel) ModelsReady"
  let ?w2 = "?w1\<lparr>log := Some [header]\<rparr>"
  have i: "init_log env ?w1 = (Inr (), ?w2)"
    using assms by (simp add: init_log_def)
  have "one_header_first (log ?w2)" by (simp add: one_header_first_def)
  then have "one_header_first (log (snd (process_downloads env ?w2)))"
    by (rule header_process_downloads)
  with assms i show ?thesis by (simp add: main_def load_models_def)
qed

lemma init_log_keeps_existing: "log w \<noteq> None \<Longrightarrow> init_log env w = (Inr (), w)"
  by (simp add: init_log_def)

lemma log_action_cases:
  "log (snd (log_action env w n c p)) = log w
   \<or> log (snd (log_action env w n c p))
       = Some ((case log w of None \<Rightarrow> [] | Some rows \<Rightarrow> rows) @ [[now env n, n, c, p]])"
  by (simp add: log_action_def Let_def split: option.splits)

lemma process_entry_log_cases:
  "log (snd (process_entry env w f)) = log w
   \<or> (\<exists>ts c d x. log (snd (process_entry env w f))
         = Some ((case log w of None \<Rightarrow> [] | Some rows \<Rightarrow> rows) @ [[ts, name f, c, d @ sep @ x]]))"
proof (cases "fs w (str_path env f) \<noteq> Some RegularFile")
  case True
  then show ?thesis by (simp add: process_entry_def)
next
  case False
  obtain r1 w1 where x: "extract_text_from_file env (emit w (Processing (name f))) f = (r1, w1)"
    by (cases "extract_text_from_file env (emit w (Processing (name f))) f")
  then have l1: "log w1 = log w"
    using log_extract [of env "emit w (Processing (name f))" f] by simp
  show ?thesis
  proof (cases r1)
    case (Inl e)
    with False x l1 show ?thesis by (simp add: process_entry_def)
  next
    case (Inr t)
    obtain r2 w2 where c: "choose_category env w1 f t = (r2, w2)"
      by (cases "choose_category env w1 f t")
    then have l2: "log w2 = log w" using log_choose_category [of env w1 f t] l1 by simp
    show ?thesis
    proof (cases r2)
      case (Inl e)
      with False x Inr c l2 show ?thesis by (simp add: process_entry_def)
    next
      case r2: (Inr oc)
      show ?thesis
      proof (cases oc)
        case None
        with False x Inr c r2 l2 show ?thesis by (simp add: process_entry_def)
      next
        case (Some category)
        obtain r3 w3 where m: "move_file env w2 f category = (r3, w3)"
          by (cases "move_file env w2 f category")
        then have l3: "log w3 = log w" using log_move_file [of env w2 f category] l2 by simp
        show ?thesis
        proof (cases r3)
          case (Inl e)
          with False x Inr c r2 Some m l3 show ?thesis by (simp add: process_entry_def)
        next
          case r3: (Inr np)
          show ?thesis
          proof (cases np)
            case None
            with False x Inr c r2 Some m r3 l3 show ?thesis by (simp add: process_entry_def)
          next
            case np: (Some p)
            with m r3 have p: "p = (DOCUMENTS env @ sep @ category) @ sep @ name f"
              by (auto dest: move_file_target)
            then have pne: "p \<noteq> []" by (simp add: sep_def)
            have e: "process_entry env w f = log_action env w3 (name f) category p"
              using False x Inr c r2 Some m r3 np pne by (simp add: process_entry_def)
            from log_action_cases [of env w3 "name f" category p] show ?thesis
              unfolding e l3 p by blast
          qed
        qed
      qed
    qed
  qed
qed

lemma log_extends_process_entry:
  assumes "log w = Some rows0"
  shows "\<exists>rows. log (snd (process_entry env w f)) = Some (rows0 @ rows) \<and> header \<notin> set rows"
proof -
  from process_entry_log_cases [of env w f] show ?thesis
  proof
    assume "log (snd (process_entry env w f)) = log w"
    with assms have "log (snd (process_entry env w f)) = Some (rows0 @ []) \<and> header \<notin> set []"
      by simp
    then show ?thesis by blast
  next
    assume "\<exists>ts c d x. log (snd (process_entry env w f))
         = Some ((case log w of None \<Rightarrow> [] | Some rows \<Rightarrow> rows) @ [[ts, name f, c, d @ sep @ x]])"
    then obtain ts c d x where
      "log (snd (process_entry env w f)) = Some (rows0 @ [[ts, name f, c, d @ sep @ x]])"
      using assms by auto
    moreover have "header \<notin> set [[ts, name f, c, d @ sep @ x]]"
      using row_not_header [of ts "name f" c d x] by auto
    ultimately show ?thesis by blast
  qed
qed

lemma log_extends_process_loop:
  "log w = Some rows0 \<Longrightarrow>
     \<exists>rows. log (snd (process_loop env w entries)) = Some (rows0 @ rows) \<and> header \<notin> set rows"
proof (induction entries arbitrary: w rows0)
  case Nil
  then have "log (snd (process_loop env w [])) = Some (rows0 @ []) \<and> header \<notin> set []" by simp
  then show ?case by blast
next
  case (Cons f entries)
  obtain r w1 where p: "process_entry env w f = (r, w1)" by (cases "process_entry env w f")
  from log_extends_process_entry [OF Cons.prems, of env f] p
  obtain rows1 where r1: "log w1 = Some (rows0 @ rows1)" "header \<notin> set rows1" by auto
  show ?case
  proof (cases r)
    case (Inl e)
    with p r1 show ?thesis by auto
  next
    case (Inr u)
    from Cons.IH [OF r1(1)] obtain rows2 where
      r2: "log (snd (process_loop env w1 entries)) = Some ((rows0 @ rows1) @ rows2)"
        "header \<notin> set rows2" by blast
    with p Inr r1(2) have
      "log (snd (process_loop env w (f # entries))) = Some (rows0 @ (rows1 @ rows2))
       \<and> header \<notin> set (rows1 @ rows2)" by simp
    then show ?thesis by blast
  qed
qed

lemma log_extends_process_downloads:
  assumes "log w = Some rows0"
  shows "\<exists>rows. log (snd (process_downloads env w)) = Some (rows0 @ rows) \<and> header \<notin> set rows"
proof (cases "iterdir env")
  case (Inl e)
  with assms have "log (snd (process_downloads env w)) = Some (rows0 @ []) \<and> header \<notin> set []"
    by (simp add: process_downloads_def)
  then show ?thesis by blast
next
  case (Inr entries)
  have "log (emit w (Scanning (DOWNLOADS env))) = Some rows0" using assms by simp
  from log_extends_process_loop [OF this, of env entries] obtain rows where
    "log (snd (process_loop env (emit w (Scanning (DOWNLOADS env))) entries)) = Some (rows0 @ rows)"
    "header \<notin> set rows" by blast
  with Inr have "log (snd (process_downloads env w)) = Some (rows0 @ rows) \<and> header \<notin> set rows"
    by (cases "process_loop env (emit w (Scanning (DOWNLOADS env))) entries")
       (simp add: process_downloads_def split: sum.splits)
  then show ?thesis by blast
qed

lemma log_extends_main:
  assumes "log w = Some rows0"
  shows "\<exists>rows. log (snd (main env w)) = Some (rows0 @ rows) \<and> header \<notin> set rows"
proof (cases "load_error env")
  case (Some e)
  with assms have "log (snd (main env w)) = Some (rows0 @ []) \<and> header \<notin> set []"
    by (simp add: main_def load_models_def)
  then show ?thesis by blast
next
  case None
  let ?w1 = "emit (emit w LoadingModel) ModelsReady"
  have l: "log ?w1 = Some rows0" using assms by simp
  then have i: "init_log env ?w1 = (Inr (), ?w1)" by (simp add: init_log_def)
  from log_extends_process_downloads [OF l, of env] None i show ?thesis
    by (simp add: main_def load_models_def)
qed

lemma fs_ocr_pdf: "fs (snd (ocr_pdf env w f)) = fs w"
  by (simp add: ocr_pdf_def split: sum.splits)

lemma fs_extract_body: "fs (snd (extract_body env w f)) = fs w"
  by (simp add: extract_body_def Let_def fs_ocr_pdf split: sum.splits)

lemma fs_extract: "fs (snd (extract_text_from_file env w f)) = fs w"
proof (cases "extract_body env w f")
  case (Pair r w1)
  with fs_extract_body [of env w f] show ?thesis
    by (simp add: extract_text_from_file_def split: sum.splits)
qed

lemma fs_classify_text: "fs (snd (classify_text env w t)) = fs w"
  by (simp add: classify_text_def Let_def split: sum.splits list.splits)

lemma fs_choose_category: "fs (snd (choose_category env w f t)) = fs w"
proof -
  have a: "fs (snd (content_tier env w t)) = fs w"
    using fs_classify_text [of env w t]
    by (cases "classify_text env w t") (simp add: content_tier_def split: sum.splits)
  have b: "fs (snd (filename_tier env w' f c)) = fs w'" for w' c
    using fs_classify_text [of env "emit w' FallingBack" "stem f"]
    by (cases "classify_text env (emit w' FallingBack) (stem f)")
       (simp add: filename_tier_def split: sum.splits)
  show ?thesis
    using a b by (cases "content_tier env w t") (simp add: choose_category_def)
qed

lemma staging_not_documents: "str_path env f \<noteq> DOCUMENTS env @ x"
  by (simp add: str_path_def DOWNLOADS_def DOCUMENTS_def sep_def)

lemma move_file_relocates:
  assumes "move_file env w f c = (Inr (Some target), w')"
    and "fs w (str_path env f) = Some RegularFile"
  shows "fs w' (str_path env f) = None
    \<and> (fs w' target = Some RegularFile
       \<or> fs w' (target @ sep @ basename (str_path env f)) = Some RegularFile)"
proof -
  let ?d = "DOCUMENTS env @ sep @ c"
  let ?t = "?d @ sep @ name f"
  obtain r1 w1 where k: "mkdir env w ?d = (r1, w1)" by (cases "mkdir env w ?d")
  have ne: "str_path env f \<noteq> ?d" by (rule staging_not_documents)
  from k have src: "fs w1 (str_path env f) = Some RegularFile"
    using assms(2) ne by (auto simp: mkdir_def split: option.splits node.splits)
  obtain r2 w2 where m: "shutil_move env w1 (str_path env f) ?t = (r2, w2)"
    by (cases "shutil_move env w1 (str_path env f) ?t")
  from assms(1) k m have t: "target = ?t" and ok: "\<exists>p. r2 = Inr p" and w': "fs w' = fs w2"
    by (auto simp: move_file_def Let_def split: sum.splits)
  have n1: "str_path env f \<noteq> ?t"
    using staging_not_documents [of env f "sep @ c @ sep @ name f"] by simp
  have n2: "str_path env f \<noteq> ?t @ sep @ basename (str_path env f)"
    using staging_not_documents [of env f "sep @ c @ sep @ name f @ sep @ basename (str_path env f)"]
    by simp
  from m ok src n1 n2 have
    "fs w2 (str_path env f) = None
     \<and> (fs w2 ?t = Some RegularFile \<or> fs w2 (?t @ sep @ basename (str_path env f)) = Some RegularFile)"
    by (auto simp: shutil_move_def Let_def split: if_splits option.splits)
  with t w' show ?thesis by simp
qed

lemma process_loop_append:
  "process_loop env w (xs @ ys) =
     (case process_loop env w xs of
        (Inl e, w1) \<Rightarrow> (Inl e, w1)
      | (Inr _, w1) \<Rightarrow> process_loop env w1 ys)"
  by (induction xs arbitrary: w) (auto split: prod.splits sum.splits)

lemma failed_move_is_skipped:
  assumes "fs w (str_path env f) = Some RegularFile"
    and "extract_text_from_file env (emit w (Processing (name f))) f = (Inr t, w1)"
    and "choose_category env w1 f t = (Inr (Some category), w2)"
    and "move_file env w2 f category = (Inr None, w3)"
  shows "process_entry env w f = (Inr (), w3) \<and> log w3 = log w"
proof -
  have l1: "log w1 = log w"
    using log_extract [of env "emit w (Processing (name f))" f] assms(2) by simp
  have l2: "log w2 = log w1" using log_choose_category [of env w1 f t] assms(3) by simp
  have l3: "log w3 = log w2" using log_move_file [of env w2 f category] assms(4) by simp
  from assms l1 l2 l3 show ?thesis by (simp add: process_entry_def)
qed

lemma moved_file_is_logged:
  assumes "fs w (str_path env f) = Some RegularFile"
    and "extract_text_from_file env (emit w (Processing (name f))) f = (Inr t, w1)"
    and "choose_category env w1 f t = (Inr (Some category), w2)"
    and "move_file env w2 f category = (Inr (Some target), w3)"
    and "log_append_error env [now env (name f), name f, category, target] = None"
  shows "process_entry env w f =
    (Inr (), w3\<lparr>log := Some ((case log w of None \<Rightarrow> [] | Some rows \<Rightarrow> rows)
                     @ [[now env (name f), name f, category, target]])\<rparr>)"
proof -
  have t: "target \<noteq> []" using assms(4) by (auto dest: move_file_target simp: sep_def)
  have l1: "log w1 = log w"
    using log_extract [of env "emit w (Processing (name f))" f] assms(2) by simp
  have l2: "log w2 = log w1" using log_choose_category [of env w1 f t] assms(3) by simp
  have l3: "log w3 = log w2" using log_move_file [of env w2 f category] assms(4) by simp
  from assms t l1 l2 l3 show ?thesis by (simp add: process_entry_def log_action_def)
qed

lemma empty_top_label_falls_back:
  assumes "strip text \<noteq> []" and "classifier env (take 1000 text) CATEGORIES = Inr ([] # rest)"
  shows "FallingBack \<in> set (new_events w (snd (choose_category env w file_path text)))"
  using assms
  by (auto simp: choose_category_def content_tier_def filename_tier_def classify_text_def
      falsy_def emit_def Let_def new_events_def split: sum.splits list.splits)

text \<open>The definitions a run on a concrete input unfolds.\<close>

lemmas model_defs =
  main_def load_models_def init_log_def process_downloads_def process_entry_def
  extract_text_from_file_def extract_body_def choose_category_def content_tier_def
  filename_tier_def classify_text_def falsy_def move_file_def mkdir_def shutil_move_def
  log_action_def emit_def str_path_def DOWNLOADS_def DOCUMENTS_def LOG_FILE_def sep_def
  lower_def lower_char_def strip_def isspace_def basename_def image_exts_def header_def
  CATEGORIES_def Let_def

subsection \<open>The fallback controller\<close>

text \<open>
  Claim C1. When the extracted text is not empty after trimming and the classifier answers
  on it with a ranking whose first label is \<open>c\<close>, the category assigned is \<open>c\<close>, and the
  filename tier is not entered: the only events added are the one call of the classifier,
  on the first 1000 characters of the text, and the line "classified from content".
  The classifier is taken to rank the candidate labels it was given, so its first label
  is one of \<open>CATEGORIES\<close> and is not the empty string.
\<close>

theorem content_tier_preferred:
  assumes "ranks_candidates env" and "strip text \<noteq> []"
    and "classifier env (take 1000 text) CATEGORIES = Inr (c # rest)"
  shows "choose_category env w file_path text =
    (Inr (Some c), w\<lparr>trace := trace w @ [ClassifierCall (take 1000 text), ClassifiedFromContent c]\<rparr>)"
proof -
  have "c \<noteq> []" using assms(1,3) by (rule top_label_nonempty)
  then show ?thesis using assms(2,3)
    by (simp add: choose_category_def content_tier_def filename_tier_def classify_text_def
        falsy_def emit_def Let_def)
qed

theorem content_tier_preferred_witness:
  "ranks_candidates ex_env
   \<and> strip ''Solving quadratic equations'' \<noteq> []
   \<and> classifier ex_env (take 1000 ''Solving quadratic equations'') CATEGORIES
       = Inr [''Math'', ''ITIT/Jens'', ''History'', ''Coding'', ''Finacial Literacy'',
              ''College Prep'', ''English'', ''Other'']
   \<and> choose_category ex_env ex_world ex_notes ''Solving quadratic equations''
       = (Inr (Some ''Math''),
          ex_world\<lparr>trace := trace ex_world @
            [ClassifierCall (take 1000 ''Solving quadratic equations''),
             ClassifiedFromContent ''Math'']\<rparr>)"
proof -
  have h1: "ranks_candidates ex_env"
    by (simp add: ranks_candidates_def ex_env_def ex_classifier_def)
  have h2: "strip ''Solving quadratic equations'' \<noteq> []"
    by (simp add: strip_def isspace_def)
  have h3: "classifier ex_env (take 1000 ''Solving quadratic equations'') CATEGORIES
       = Inr (''Math'' # [''ITIT/Jens'', ''History'', ''Coding'', ''Finacial Literacy'',
              ''College Prep'', ''English'', ''Other''])"
    by (simp add: ex_env_def ex_classifier_def CATEGORIES_def)
  show ?thesis
    using content_tier_preferred [OF h1 h2 h3, of ex_world ex_notes] h1 h2 h3 by simp
qed

text \<open>
  Claim C2. The filename tier is entered exactly when the text was empty after trimming
  or the classifier raised on the text; when it is entered and the classifier's ranking
  for the stem starts with \<open>c\<close>, the category assigned is \<open>c\<close>. The classifier is again
  taken to rank the candidate labels it was given.
\<close>

theorem filename_tier_exactly_when:
  assumes "ranks_candidates env"
  shows "(FallingBack \<in> set (new_events w (snd (choose_category env w file_path text)))
           \<longleftrightarrow> (strip text = [] \<or> (\<exists>e. classifier env (take 1000 text) CATEGORIES = Inl e)))
       \<and> (FallingBack \<in> set (new_events w (snd (choose_category env w file_path text))) \<longrightarrow>
           classifier env (take 1000 (stem file_path)) CATEGORIES = Inr (c # rest) \<longrightarrow>
           fst (choose_category env w file_path text) = Inr (Some c))"
proof (cases "strip text = []")
  case True
  then show ?thesis
    by (auto simp: choose_category_def content_tier_def filename_tier_def classify_text_def
        falsy_def emit_def Let_def new_events_def split: sum.splits list.splits)
next
  case False
  show ?thesis
  proof (cases "classifier env (take 1000 text) CATEGORIES")
    case (Inl e)
    with False show ?thesis
      by (auto simp: choose_category_def content_tier_def filename_tier_def classify_text_def
        falsy_def emit_def Let_def new_events_def split: sum.splits list.splits)
  next
    case (Inr r)
    with assms have "r \<noteq> []" by (auto dest: ranking_nonempty)
    then obtain d ds where r: "r = d # ds" by (cases r) auto
    with Inr assms have "d \<noteq> []" by (auto dest: top_label_nonempty)
    with False Inr r show ?thesis
      by (simp add: choose_category_def content_tier_def filename_tier_def classify_text_def
        falsy_def emit_def Let_def new_events_def)
  qed
qed

theorem filename_tier_exactly_when_witness:
  "ranks_candidates ex_env
   \<and> strip [] = []
   \<and> FallingBack \<in> set (new_events ex_world (snd (choose_category ex_env ex_world ex_taxes [])))
   \<and> classifier ex_env (take 1000 (stem ex_taxes)) CATEGORIES
       = Inr [''Math'', ''ITIT/Jens'', ''History'', ''Coding'', ''Finacial Literacy'',
              ''College Prep'', ''English'', ''Other'']
   \<and> fst (choose_category ex_env ex_world ex_taxes []) = Inr (Some ''Math'')"
proof -
  have h1: "ranks_candidates ex_env"
    by (simp add: ranks_candidates_def ex_env_def ex_classifier_def)
  have h2: "strip [] = []" by (simp add: strip_def)
  have h3: "classifier ex_env (take 1000 (stem ex_taxes)) CATEGORIES
       = Inr (''Math'' # [''ITIT/Jens'', ''History'', ''Coding'', ''Finacial Literacy'',
              ''College Prep'', ''English'', ''Other''])"
    by (simp add: ex_env_def ex_classifier_def CATEGORIES_def ex_taxes_def)
  show ?thesis
    using filename_tier_exactly_when [OF h1, of ex_world ex_taxes "[]" "''Math''"
        "[''ITIT/Jens'', ''History'', ''Coding'', ''Finacial Literacy'',
              ''College Prep'', ''English'', ''Other'']"] h1 h2 h3
    by simp
qed

text \<open>
  Claim C3. The controller always ends with a category, never with an exception; when the
  classifier raises both on the text and on the stem, that category is \<open>Other\<close>.
\<close>

theorem default_tier_other:
  "(\<exists>c w'. choose_category env w file_path text = (Inr (Some c), w'))
   \<and> (classifier env (take 1000 text) CATEGORIES = Inl e1 \<longrightarrow>
      classifier env (take 1000 (stem file_path)) CATEGORIES = Inl e2 \<longrightarrow>
      fst (choose_category env w file_path text) = Inr (Some ''Other''))"
  by (auto simp: choose_category_def content_tier_def filename_tier_def classify_text_def
        falsy_def emit_def Let_def split: sum.splits list.splits)

theorem default_tier_other_witness:
  "classifier (ex_env\<lparr>classifier := \<lambda>t ls. Inl (OtherError ''unavailable'')\<rparr>)
      (take 1000 ''Solving quadratic equations'') CATEGORIES = Inl (OtherError ''unavailable'')
   \<and> classifier (ex_env\<lparr>classifier := \<lambda>t ls. Inl (OtherError ''unavailable'')\<rparr>)
      (take 1000 (stem ex_notes)) CATEGORIES = Inl (OtherError ''unavailable'')
   \<and> fst (choose_category (ex_env\<lparr>classifier := \<lambda>t ls. Inl (OtherError ''unavailable'')\<rparr>)
        ex_world ex_notes ''Solving quadratic equations'') = Inr (Some ''Other'')"
  using default_tier_other [of "ex_env\<lparr>classifier := \<lambda>t ls. Inl (OtherError ''unavailable'')\<rparr>"
      ex_world ex_notes "''Solving quadratic equations''" "OtherError ''unavailable''"
      "OtherError ''unavailable''"]
  by simp

subsection \<open>Classification\<close>

text \<open>
  Claim C6. \<open>classify_text\<close> calls the classifier once, on the first 1000 characters of
  its text; two texts with the same first 1000 characters give the same call and the same
  outcome; and the value returned is the first label of the ranking.
\<close>

theorem classify_text_bounded_prefix:
  "trace (snd (classify_text env w text)) = trace w @ [ClassifierCall (take 1000 text)]
   \<and> (take 1000 t1 = take 1000 t2 \<longrightarrow> classify_text env w t1 = classify_text env w t2)
   \<and> (classifier env (take 1000 text) CATEGORIES = Inr (l # ls) \<longrightarrow>
        fst (classify_text env w text) = Inr l)"
  by (auto simp: classify_text_def emit_def Let_def split: sum.splits list.splits)

theorem classify_text_bounded_prefix_witness:
  "take 1000 (replicate 1000 CHR ''a'' @ ''x'') = take 1000 (replicate 1000 CHR ''a'' @ ''y'')
   \<and> classify_text ex_env ex_world (replicate 1000 CHR ''a'' @ ''x'')
       = classify_text ex_env ex_world (replicate 1000 CHR ''a'' @ ''y'')
   \<and> classifier ex_env (take 1000 ''Taxes'') CATEGORIES
       = Inr [''Math'', ''ITIT/Jens'', ''History'', ''Coding'', ''Finacial Literacy'',
              ''College Prep'', ''English'', ''Other'']
   \<and> fst (classify_text ex_env ex_world ''Taxes'') = Inr ''Math''"
proof -
  have h1: "take 1000 (replicate 1000 CHR ''a'' @ ''x'') = take 1000 (replicate 1000 CHR ''a'' @ ''y'')"
    by simp
  have h3: "classifier ex_env (take 1000 ''Taxes'') CATEGORIES
       = Inr (''Math'' # [''ITIT/Jens'', ''History'', ''Coding'', ''Finacial Literacy'',
              ''College Prep'', ''English'', ''Other''])"
    by (simp add: ex_env_def ex_classifier_def CATEGORIES_def)
  show ?thesis
    using classify_text_bounded_prefix [of ex_env ex_world "''Taxes''"
        "replicate 1000 CHR ''a'' @ ''x''" "replicate 1000 CHR ''a'' @ ''y''" "''Math''"
        "[''ITIT/Jens'', ''History'', ''Coding'', ''Finacial Literacy'',
              ''College Prep'', ''English'', ''Other'']"] h1 h3
    by simp
qed

text \<open>
  Claim C9. The label list has 8 entries; the first is \<open>ITIT/Jens\<close>, there is no label
  \<open>IT\<close>; \<open>Finacial Literacy\<close> is a label and \<open>Financial Literacy\<close> is not; the labels
  are pairwise different and \<open>Other\<close> is one of them.
\<close>

theorem categories_list:
  "length CATEGORIES = 8 \<and> hd CATEGORIES = ''ITIT/Jens'' \<and> ''IT'' \<notin> set CATEGORIES
   \<and> ''Finacial Literacy'' \<in> set CATEGORIES \<and> ''Financial Literacy'' \<notin> set CATEGORIES
   \<and> distinct CATEGORIES \<and> ''Other'' \<in> set CATEGORIES"
  by (simp add: CATEGORIES_def)

subsection \<open>Extraction and OCR\<close>

text \<open>
  Claim C5. \<open>extract_text_from_file\<close> always returns a text and never raises; an
  exception inside its \<open>try\<close> gives the empty text (and a warning); a suffix that, in
  lower case, is none of the eight supported ones gives the empty text.
\<close>

theorem extract_text_total:
  "(\<exists>t w'. extract_text_from_file env w file_path = (Inr t, w'))
   \<and> (extract_body env w file_path = (Inl e, w1) \<longrightarrow>
        extract_text_from_file env w file_path = (Inr [], emit w1 (ErrorReading (name file_path) e)))
   \<and> (lower (suffix file_path) \<notin> set supported_exts \<longrightarrow>
        extract_text_from_file env w file_path = (Inr [], emit w (Unsupported (name file_path))))"
proof (intro conjI impI)
  show "\<exists>t w'. extract_text_from_file env w file_path = (Inr t, w')"
    by (cases "extract_body env w file_path")
       (auto simp: extract_text_from_file_def split: sum.splits)
next
  assume "extract_body env w file_path = (Inl e, w1)"
  then show "extract_text_from_file env w file_path =
      (Inr [], emit w1 (ErrorReading (name file_path) e))"
    by (simp add: extract_text_from_file_def)
next
  assume "lower (suffix file_path) \<notin> set supported_exts"
  then have "extract_body env w file_path = (Inr [], emit w (Unsupported (name file_path)))"
    by (auto simp: extract_body_def supported_exts_def Let_def)
  then show "extract_text_from_file env w file_path =
      (Inr [], emit w (Unsupported (name file_path)))"
    by (simp add: extract_text_from_file_def)
qed

theorem extract_text_total_witness:
  "extract_body (ex_env\<lparr>read_text := \<lambda>p. Inl (OtherError ''permission denied'')\<rparr>) ex_world ex_notes
     = (Inl (OtherError ''permission denied''), ex_world)
   \<and> extract_text_from_file (ex_env\<lparr>read_text := \<lambda>p. Inl (OtherError ''permission denied'')\<rparr>)
       ex_world ex_notes
     = (Inr [], emit ex_world (ErrorReading ''algebra_notes.txt'' (OtherError ''permission denied'')))
   \<and> lower (suffix ex_zip) \<notin> set supported_exts
   \<and> extract_text_from_file ex_env ex_world ex_zip
     = (Inr [], emit ex_world (Unsupported ''archive.zip''))"
proof -
  let ?env = "ex_env\<lparr>read_text := \<lambda>p. Inl (OtherError ''permission denied'')\<rparr>"
  have h1: "extract_body ?env ex_world ex_notes = (Inl (OtherError ''permission denied''), ex_world)"
    by (simp add: extract_body_def ex_notes_def lower_def lower_char_def Let_def)
  have h2: "lower (suffix ex_zip) \<notin> set supported_exts"
    by (simp add: ex_zip_def lower_def lower_char_def supported_exts_def image_exts_def)
  show ?thesis
    using extract_text_total [of ?env ex_world ex_notes "OtherError ''permission denied''" ex_world]
      extract_text_total [of ex_env ex_world ex_zip] h1 h2
    by (simp add: ex_notes_def ex_zip_def)
qed

text \<open>
  Claim C8, as amended. In \<open>ocr_pdf\<close> the fragments of one page are joined with single
  newlines, in the recogniser's order, and the pages are joined with a blank line (two
  newlines), in page order; when opening the PDF raises, or a page raises, the result is
  the empty text; \<open>ocr_pdf\<close> never raises.
\<close>

theorem ocr_pdf_joins:
  "(pdf_page_ocr env (str_path env file_path) = Inr (map Inr pages) \<longrightarrow>
      ocr_pdf env w file_path = (Inr (join (nl @ nl) (map (join nl) pages)), w))
   \<and> (pdf_page_ocr env (str_path env file_path) = Inl e \<or>
      (\<exists>ps. pdf_page_ocr env (str_path env file_path) = Inr ps \<and> Inl e \<in> set ps) \<longrightarrow>
      fst (ocr_pdf env w file_path) = Inr [])
   \<and> (\<exists>t w'. ocr_pdf env w file_path = (Inr t, w'))"
proof (intro conjI impI)
  assume "pdf_page_ocr env (str_path env file_path) = Inr (map Inr pages)"
  then show "ocr_pdf env w file_path = (Inr (join (nl @ nl) (map (join nl) pages)), w)"
    by (simp add: ocr_pdf_def ocr_pdf_body_def ocr_pages_all_ok)
next
  assume "pdf_page_ocr env (str_path env file_path) = Inl e \<or>
      (\<exists>ps. pdf_page_ocr env (str_path env file_path) = Inr ps \<and> Inl e \<in> set ps)"
  then show "fst (ocr_pdf env w file_path) = Inr []"
  proof
    assume "pdf_page_ocr env (str_path env file_path) = Inl e"
    then show ?thesis by (simp add: ocr_pdf_def ocr_pdf_body_def)
  next
    assume "\<exists>ps. pdf_page_ocr env (str_path env file_path) = Inr ps \<and> Inl e \<in> set ps"
    then obtain ps where ps: "pdf_page_ocr env (str_path env file_path) = Inr ps" "Inl e \<in> set ps"
      by blast
    from ps(2) obtain e' where "ocr_pages ps [] = Inl e'"
      using ocr_pages_failure by blast
    with ps(1) show ?thesis by (simp add: ocr_pdf_def ocr_pdf_body_def)
  qed
next
  show "\<exists>t w'. ocr_pdf env w file_path = (Inr t, w')"
    by (simp add: ocr_pdf_def split: sum.splits)
qed

theorem ocr_pdf_joins_witness:
  "pdf_page_ocr ex_env (str_path ex_env ex_notes) = Inr (map Inr [[''a'', ''b''], [''c'']])
   \<and> ocr_pdf ex_env ex_world ex_notes = (Inr (''a'' @ nl @ ''b'' @ nl @ nl @ ''c''), ex_world)
   \<and> pdf_page_ocr (ex_env\<lparr>pdf_page_ocr := \<lambda>p. Inr [Inr [''a''], Inl (OtherError ''decode'')]\<rparr>)
        (str_path ex_env ex_notes) = Inr [Inr [''a''], Inl (OtherError ''decode'')]
   \<and> Inl (OtherError ''decode'') \<in> set [Inr [''a''], Inl (OtherError ''decode'')]
   \<and> fst (ocr_pdf (ex_env\<lparr>pdf_page_ocr := \<lambda>p. Inr [Inr [''a''], Inl (OtherError ''decode'')]\<rparr>)
        ex_world ex_notes) = Inr []"
proof -
  let ?env = "ex_env\<lparr>pdf_page_ocr := \<lambda>p. Inr [Inr [''a''], Inl (OtherError ''decode'')]\<rparr>"
  have h1: "pdf_page_ocr ex_env (str_path ex_env ex_notes) = Inr (map Inr [[''a'', ''b''], [''c'']])"
    by (simp add: ex_env_def)
  have h2: "\<exists>ps. pdf_page_ocr ?env (str_path ?env ex_notes) = Inr ps \<and> Inl (OtherError ''decode'') \<in> set ps"
    by simp
  show ?thesis
    using ocr_pdf_joins [where env = ex_env and file_path = ex_notes
          and pages = "[[''a'', ''b''], [''c'']]" and w = ex_world]
      ocr_pdf_joins [where env = "?env" and file_path = ex_notes
          and e = "OtherError ''decode''" and w = ex_world] h1 h2
    by simp
qed

text \<open>
  The claim as worded (fragments of a page joined with blank lines) fails on a page with
  two fragments: the code puts one newline between them.
\<close>

theorem ocr_pdf_fragments_joined_by_newline:
  "pdf_page_ocr ex_env (str_path ex_env ex_notes) = Inr (map Inr [[''a'', ''b''], [''c'']])
   \<and> fst (ocr_pdf ex_env ex_world ex_notes) = Inr (''a'' @ nl @ ''b'' @ nl @ nl @ ''c'')
   \<and> spec_ocr_text [[''a'', ''b''], [''c'']] = ''a'' @ nl @ nl @ ''b'' @ nl @ nl @ ''c''
   \<and> fst (ocr_pdf ex_env ex_world ex_notes) \<noteq> Inr (spec_ocr_text [[''a'', ''b''], [''c'']])"
  by (simp add: ocr_pdf_def ocr_pdf_body_def ex_env_def spec_ocr_text_def nl_def)

subsection \<open>The audit log\<close>

text \<open>
  Claim C7. Initialisation leaves an existing log as it is, whatever its rows, and a whole
  run on an existing log only appends rows to it, none of them a header. On a log
  location where no file exists yet, and when the first start can load its models and
  create the file: initialisation writes the header row; initialising again changes
  nothing; after the first run, and after a second run of the whole script on what the
  first one left, the log has the header as its first row and no other header row.
\<close>

theorem log_header_once:
  "(log w' \<noteq> None \<longrightarrow> init_log env w' = (Inr (), w'))
   \<and> (log w' = Some old_rows \<longrightarrow>
        (\<exists>rows. log (snd (main env w')) = Some (old_rows @ rows) \<and> header \<notin> set rows))
   \<and> (log w = None \<and> load_error env_a = None \<and> log_create_error env_a = None \<longrightarrow>
        init_log env_a w = (Inr (), w\<lparr>log := Some [header]\<rparr>)
        \<and> init_log env_b (snd (init_log env_a w)) = (Inr (), snd (init_log env_a w))
        \<and> one_header_first (log (snd (main env_a w)))
        \<and> one_header_first (log (snd (main env_b (snd (main env_a w))))))"
proof (intro conjI impI)
  assume "log w' \<noteq> None"
  then show "init_log env w' = (Inr (), w')" by (rule init_log_keeps_existing)
next
  assume "log w' = Some old_rows"
  then show "\<exists>rows. log (snd (main env w')) = Some (old_rows @ rows) \<and> header \<notin> set rows"
    by (rule log_extends_main)
next
  assume h: "log w = None \<and> load_error env_a = None \<and> log_create_error env_a = None"
  then show a: "init_log env_a w = (Inr (), w\<lparr>log := Some [header]\<rparr>)"
    by (simp add: init_log_def)
  show "init_log env_b (snd (init_log env_a w)) = (Inr (), snd (init_log env_a w))"
    by (simp add: a) (simp add: init_log_def)
  from h show c: "one_header_first (log (snd (main env_a w)))"
    by (simp add: header_first_start)
  then show "one_header_first (log (snd (main env_b (snd (main env_a w)))))"
    by (rule header_main)
qed

theorem log_header_once_witness:
  "log logged_world \<noteq> None
   \<and> init_log ex_env logged_world = (Inr (), logged_world)
   \<and> log logged_world = Some [header,
        [''2024-04-30T09:00:00'', ''old.txt'', ''Math'', ''/home/u/Documents/Math/old.txt'']]
   \<and> (\<exists>rows. log (snd (main ex_env logged_world))
        = Some ([header,
             [''2024-04-30T09:00:00'', ''old.txt'', ''Math'', ''/home/u/Documents/Math/old.txt'']]
             @ rows) \<and> header \<notin> set rows)
   \<and> log (snd (main ex_env logged_world)) = Some [header,
        [''2024-04-30T09:00:00'', ''old.txt'', ''Math'', ''/home/u/Documents/Math/old.txt''],
        [''2024-05-01T10:00:00'', ''Taxes'', ''Math'', ''/home/u/Documents/Math/Taxes'']]
   \<and> log ex_world = None \<and> load_error ex_env = None \<and> log_create_error ex_env = None
   \<and> init_log ex_env ex_world = (Inr (), ex_world\<lparr>log := Some [header]\<rparr>)
   \<and> init_log full_disk_env (snd (init_log ex_env ex_world)) = (Inr (), snd (init_log ex_env ex_world))
   \<and> one_header_first (log (snd (main ex_env ex_world)))
   \<and> one_header_first (log (snd (main full_disk_env (snd (main ex_env ex_world)))))"
proof -
  have h1: "log logged_world \<noteq> None" by (simp add: logged_world_def)
  have h2: "log logged_world = Some [header,
        [''2024-04-30T09:00:00'', ''old.txt'', ''Math'', ''/home/u/Documents/Math/old.txt'']]"
    by (simp add: logged_world_def)
  have h4: "log (snd (main ex_env logged_world)) = Some [header,
        [''2024-04-30T09:00:00'', ''old.txt'', ''Math'', ''/home/u/Documents/Math/old.txt''],
        [''2024-05-01T10:00:00'', ''Taxes'', ''Math'', ''/home/u/Documents/Math/Taxes'']]"
    by (simp add: model_defs ex_env_def ex_classifier_def ex_world_def logged_world_def
        ex_taxes_def)
  have h3: "log ex_world = None \<and> load_error ex_env = None \<and> log_create_error ex_env = None"
    by (simp add: ex_world_def ex_env_def)
  show ?thesis
    using log_header_once [where w' = logged_world and env = ex_env and w = ex_world
        and env_a = ex_env and env_b = full_disk_env
        and old_rows = "[header,
          [''2024-04-30T09:00:00'', ''old.txt'', ''Math'', ''/home/u/Documents/Math/old.txt'']]"]
      h1 h2 h3 h4
    by blast
qed

text \<open>
  Claim C10. When a file of the snapshot has been moved (the entries before it were
  processed without an exception) and appending its row to the log raises, the exception
  leaves the loop and \<open>process_downloads\<close>; the world is the one right after the move: the
  log is as it was before this file, the file is no longer in the staging folder and is
  at its new place; the entries after it are not processed, whatever they are.
\<close>

theorem log_failure_aborts_after_move:
  assumes "process_loop env w0 pre = (Inr (), w)"
    and "fs w (str_path env f) = Some RegularFile"
    and "extract_text_from_file env (emit w (Processing (name f))) f = (Inr t, w1)"
    and "choose_category env w1 f t = (Inr (Some category), w2)"
    and "move_file env w2 f category = (Inr (Some target), w3)"
    and "log_append_error env [now env (name f), name f, category, target] = Some e"
  shows "process_loop env w0 (pre @ f # rest) = (Inl e, w3)
    \<and> (iterdir env = Inr (pre @ f # rest) \<and> w0 = emit ws (Scanning (DOWNLOADS env)) \<longrightarrow>
         process_downloads env ws = (Inl e, w3))
    \<and> log w3 = log w
    \<and> fs w3 (str_path env f) = None
    \<and> (fs w3 target = Some RegularFile
       \<or> fs w3 (target @ sep @ basename (str_path env f)) = Some RegularFile)"
proof -
  have t: "target \<noteq> []" using assms(5) by (auto dest: move_file_target simp: sep_def)
  have entry: "process_entry env w f = (Inl e, w3)"
    using assms(2-6) t by (simp add: process_entry_def log_action_def)
  have loop: "process_loop env w0 (pre @ f # rest) = (Inl e, w3)"
    using assms(1) entry by (simp add: process_loop_append)
  have l1: "log w1 = log w"
    using log_extract [of env "emit w (Processing (name f))" f] assms(3) by simp
  have l2: "log w2 = log w1" using log_choose_category [of env w1 f t] assms(4) by simp
  have l3: "log w3 = log w2" using log_move_file [of env w2 f category] assms(5) by simp
  have f1: "fs w1 = fs w"
    using fs_extract [of env "emit w (Processing (name f))" f] assms(3) by simp
  have f2: "fs w2 = fs w1" using fs_choose_category [of env w1 f t] assms(4) by simp
  have "fs w2 (str_path env f) = Some RegularFile" using f1 f2 assms(2) by simp
  with assms(5) have moved: "fs w3 (str_path env f) = None
    \<and> (fs w3 target = Some RegularFile
       \<or> fs w3 (target @ sep @ basename (str_path env f)) = Some RegularFile)"
    by (rule move_file_relocates)
  have run: "process_downloads env ws = (Inl e, w3)"
    if "iterdir env = Inr (pre @ f # rest)" and "w0 = emit ws (Scanning (DOWNLOADS env))"
    using that loop by (simp add: process_downloads_def)
  from loop run l1 l2 l3 moved show ?thesis by simp
qed

theorem log_failure_aborts_after_move_witness:
  "process_loop full_disk_env (emit ex_world (Scanning ''/home/u/Downloads''))
       ([] @ ex_notes # [ex_taxes])
     = (Inl (OtherError ''disk full''), moved_world)
   \<and> process_downloads full_disk_env ex_world = (Inl (OtherError ''disk full''), moved_world)
   \<and> log moved_world = log ex_world
   \<and> fs moved_world ''/home/u/Downloads/algebra_notes.txt'' = None
   \<and> fs moved_world ''/home/u/Documents/Math/algebra_notes.txt'' = Some RegularFile
   \<and> fs moved_world ''/home/u/Downloads/Taxes'' = Some RegularFile"
proof -
  let ?E = full_disk_env
  let ?T = "''Solving quadratic equations''"
  let ?w0 = "emit ex_world (Scanning (DOWNLOADS ?E))"
  let ?w1 = "emit ?w0 (Processing (name ex_notes))"
  let ?w2 = "emit (emit ?w1 (ClassifierCall ?T)) (ClassifiedFromContent ''Math'')"
  let ?p = "''/home/u/Documents/Math/algebra_notes.txt''"
  have d: "DOWNLOADS ?E = ''/home/u/Downloads''"
    by (simp add: DOWNLOADS_def sep_def full_disk_env_def ex_env_def)
  have h1: "process_loop ?E ?w0 [] = (Inr (), ?w0)" by simp
  have h2: "fs ?w0 (str_path ?E ex_notes) = Some RegularFile"
    by (simp add: model_defs full_disk_env_def ex_env_def ex_notes_def ex_world_def)
  have h3: "extract_text_from_file ?E ?w1 ex_notes = (Inr ?T, ?w1)"
    by (simp add: model_defs full_disk_env_def ex_env_def ex_notes_def)
  have h4: "choose_category ?E ?w1 ex_notes ?T = (Inr (Some ''Math''), ?w2)"
    by (simp add: model_defs full_disk_env_def ex_env_def ex_classifier_def)
  have h5: "move_file ?E ?w2 ex_notes ''Math'' = (Inr (Some ?p), moved_world)"
    by (simp add: model_defs full_disk_env_def ex_env_def ex_notes_def ex_world_def
        moved_world_def)
  have h6: "log_append_error ?E [now ?E (name ex_notes), name ex_notes, ''Math'', ?p]
      = Some (OtherError ''disk full'')"
    by (simp add: full_disk_env_def)
  have i: "iterdir ?E = Inr ([] @ ex_notes # [ex_taxes])"
    by (simp add: full_disk_env_def)
  show ?thesis
    using log_failure_aborts_after_move [OF h1 h2 h3 h4 h5 h6, of "[ex_taxes]" ex_world] i d
    by (simp add: moved_world_def ex_world_def)
qed

subsection \<open>Relocation and the logged destination\<close>

text \<open>
  Claim C4. The claim says that the path written to the log is the path the file was
  moved to. \<open>move_file\<close> returns \<open>str(target)\<close> and drops the path \<open>shutil.move\<close>
  returns. When the target is an existing folder the two differ: here \<open>Taxes\<close> is
  classified by its stem as \<open>Math\<close>, the folder \<open>Documents/Math/Taxes\<close> exists, the file
  lands at \<open>Documents/Math/Taxes/Taxes\<close>, and the row of the log names
  \<open>Documents/Math/Taxes\<close>, which is still the folder. (That a failed move writes no row
  and lets the loop go on, and that a successful one writes the row, are the lemmas
  \<open>failed_move_is_skipped\<close> and \<open>moved_file_is_logged\<close>.)
\<close>

theorem logged_path_is_not_where_the_file_is:
  "fst (main ex_env dir_world) = Inr ()
   \<and> log (snd (main ex_env dir_world))
       = Some [header,
               [''2024-05-01T10:00:00'', ''Taxes'', ''Math'', ''/home/u/Documents/Math/Taxes'']]
   \<and> fs (snd (main ex_env dir_world)) ''/home/u/Documents/Math/Taxes'' = Some Directory
   \<and> fs (snd (main ex_env dir_world)) ''/home/u/Documents/Math/Taxes/Taxes'' = Some RegularFile
   \<and> fs (snd (main ex_env dir_world)) ''/home/u/Downloads/Taxes'' = None"
  by (simp add: model_defs ex_env_def ex_classifier_def dir_world_def ex_taxes_def)

end
